theory Spec2Isabelle
  imports Complex_Main "HOL-Library.Word"
begin

unbundle bit_operations_syntax

section \<open>Python values and their canonical text\<close>

text \<open>
  The values that travel through the cache: arguments, keyword arguments, receivers and
  results. \<open>PObj c r\<close> is an instance of the user class \<open>c\<close> whose \<open>__repr__\<close> returns
  the text \<open>r\<close> (as \<open>A(10)\<close> or \<open>Dataset([1, 2, 3])\<close> in the tests); \<open>PClass n\<close> is the
  class object with module-qualified name \<open>n\<close>. A Python string is a list of code points;
  a \<open>char\<close> stands for one code point below 256. Floats and self-referential containers
  are not represented.
\<close>

datatype pyval =
    PNone
  | PBool bool
  | PInt int
  | PStr string
  | PTuple "pyval list"
  | PList "pyval list"
  | PDict "(pyval \<times> pyval) list"
  | PClass string
  | PObj string string

definition hex_digit :: "nat \<Rightarrow> char" where
  "hex_digit n = ''0123456789abcdef'' ! (n mod 16)"

fun digits :: "nat \<Rightarrow> string" where
  "digits n = (if n < 10 then [hex_digit n] else digits (n div 10) @ [hex_digit (n mod 10)])"

declare digits.simps [simp del]

definition repr_int :: "int \<Rightarrow> string" where
  "repr_int i = (if i < 0 then ''-'' @ digits (nat (- i)) else digits (nat i))"

text \<open>
  \<open>repr\<close> of a \<open>str\<close>: single quotes unless the text has a single quote and no double
  quote; the quote and the backslash are escaped, tab, newline and return have their
  letter, the other control characters and the unprintable code points of Latin-1
  (0x7f to 0xa0, and 0xad) become \<open>\xNN\<close>, every other code point stands for itself.
\<close>

definition quote_of :: "string \<Rightarrow> char" where
  "quote_of s = (if CHR 0x27 \<in> set s \<and> CHR 0x22 \<notin> set s then CHR 0x22 else CHR 0x27)"

definition repr_char :: "char \<Rightarrow> char \<Rightarrow> string" where
  "repr_char q c =
     (let n = (of_char c :: nat) in
      if c = q \<or> c = CHR 0x5C then [CHR 0x5C, c]
      else if c = CHR 0x09 then [CHR 0x5C, CHR ''t'']
      else if c = CHR 0x0A then [CHR 0x5C, CHR ''n'']
      else if c = CHR 0x0D then [CHR 0x5C, CHR ''r'']
      else if n < 32 \<or> n = 127 then [CHR 0x5C, CHR ''x'', hex_digit (n div 16), hex_digit n]
      else if n < 127 then [c]
      else if n < 161 \<or> n = 173 then [CHR 0x5C, CHR ''x'', hex_digit (n div 16), hex_digit n]
      else [c])"

definition repr_str :: "string \<Rightarrow> string" where
  "repr_str s = (let q = quote_of s in [q] @ concat (map (repr_char q) s) @ [q])"

text \<open>\<open>sep.join(xs)\<close>.\<close>

fun join :: "string \<Rightarrow> string list \<Rightarrow> string" where
  "join sep [] = []"
| "join sep [x] = x"
| "join sep (x # y # ys) = x @ sep @ join sep (y # ys)"

fun repr :: "pyval \<Rightarrow> string" where
  "repr PNone = ''None''"
| "repr (PBool b) = (if b then ''True'' else ''False'')"
| "repr (PInt i) = repr_int i"
| "repr (PStr s) = repr_str s"
| "repr (PTuple [x]) = ''('' @ repr x @ '',)''"
| "repr (PTuple xs) = ''('' @ join '', '' (map repr xs) @ '')''"
| "repr (PList xs) = ''['' @ join '', '' (map repr xs) @ '']''"
| "repr (PDict kvs) =
     ''{'' @ join '', '' (map (\<lambda>kv. repr (fst kv) @ '': '' @ repr (snd kv)) kvs) @ ''}''"
| "repr (PClass n) = ''<class '' @ [CHR 0x27] @ n @ [CHR 0x27] @ ''>''"
| "repr (PObj c r) = r"

text \<open>The class an object reports as \<open>__class__\<close>; the class of a class is \<open>type\<close>.\<close>

fun class_of :: "pyval \<Rightarrow> string" where
  "class_of PNone = ''NoneType''"
| "class_of (PBool b) = ''bool''"
| "class_of (PInt i) = ''int''"
| "class_of (PStr s) = ''str''"
| "class_of (PTuple xs) = ''tuple''"
| "class_of (PList xs) = ''list''"
| "class_of (PDict kvs) = ''dict''"
| "class_of (PClass n) = ''type''"
| "class_of (PObj c r) = c"

text \<open>What iterating over a value yields (\<open>*args\<close>, tuple unpacking); \<open>None\<close>: not iterable.\<close>

fun iter_values :: "pyval \<Rightarrow> pyval list option" where
  "iter_values (PTuple xs) = Some xs"
| "iter_values (PList xs) = Some xs"
| "iter_values (PStr s) = Some (map (\<lambda>c. PStr [c]) s)"
| "iter_values (PDict kvs) = Some (map fst kvs)"
| "iter_values v = None"

section \<open>Exceptions\<close>

datatype exn =
    RuntimeError
  | AssertionError
  | AttributeError
  | UnicodeEncodeError
  | FileNotFoundError
  | NotADirectoryError
  | IsADirectoryError
  | FileExistsError
  | UnpicklingError
  | TypeError
  | ValueError
  | UserError string

section \<open>SHA-1 (hashlib.sha1) and its hexadecimal digest\<close>

type_synonym byte = "8 word"
type_synonym u32 = "32 word"
type_synonym sha1_state = "u32 \<times> u32 \<times> u32 \<times> u32 \<times> u32"

definition rotl :: "nat \<Rightarrow> u32 \<Rightarrow> u32" where
  "rotl n x = (push_bit n x) OR (drop_bit (32 - n) x)"

definition be_length :: "nat \<Rightarrow> byte list" where
  "be_length n =
     (let w = (word_of_nat n :: 64 word)
      in [ucast (drop_bit 56 w), ucast (drop_bit 48 w), ucast (drop_bit 40 w),
          ucast (drop_bit 32 w), ucast (drop_bit 24 w), ucast (drop_bit 16 w),
          ucast (drop_bit 8 w), ucast w])"

definition sha1_pad :: "byte list \<Rightarrow> byte list" where
  "sha1_pad m =
     m @ [0x80] @ replicate ((119 - length m mod 64) mod 64) 0 @ be_length (8 * length m)"

fun be_words :: "byte list \<Rightarrow> u32 list" where
  "be_words (a # b # c # d # bs) =
     (push_bit 24 (ucast a) OR push_bit 16 (ucast b) OR push_bit 8 (ucast c) OR ucast d)
       # be_words bs"
| "be_words bs = []"

function blocks :: "byte list \<Rightarrow> byte list list" where
  "blocks [] = []"
| "blocks (b # bs) = take 64 (b # bs) # blocks (drop 64 (b # bs))"
  by pat_completeness auto
termination
  by (relation "measure length") auto

definition next_w :: "u32 list \<Rightarrow> u32" where
  "next_w ws = rotl 1 (ws ! 13 XOR ws ! 8 XOR ws ! 2 XOR ws ! 0)"

text \<open>The message schedule: \<open>ws\<close> holds the sixteen words \<open>W(t)\<close> to \<open>W(t + 15)\<close>.\<close>

fun schedule :: "nat \<Rightarrow> u32 list \<Rightarrow> u32 list" where
  "schedule 0 ws = []"
| "schedule (Suc n) ws = hd ws # schedule n (tl ws @ [next_w ws])"

definition sha1_f :: "nat \<Rightarrow> u32 \<Rightarrow> u32 \<Rightarrow> u32 \<Rightarrow> u32" where
  "sha1_f t b c d =
     (if t < 20 then (b AND c) OR (NOT b AND d)
      else if t < 40 then b XOR c XOR d
      else if t < 60 then (b AND c) OR (b AND d) OR (c AND d)
      else b XOR c XOR d)"

definition sha1_k :: "nat \<Rightarrow> u32" where
  "sha1_k t =
     (if t < 20 then 0x5A827999 else if t < 40 then 0x6ED9EBA1
      else if t < 60 then 0x8F1BBCDC else 0xCA62C1D6)"

fun rounds :: "nat \<Rightarrow> u32 list \<Rightarrow> sha1_state \<Rightarrow> sha1_state" where
  "rounds t [] s = s"
| "rounds t (w # ws) (a, b, c, d, e) =
     rounds (Suc t) ws (rotl 5 a + sha1_f t b c d + e + sha1_k t + w, a, rotl 30 b, c, d)"

definition compress :: "sha1_state \<Rightarrow> byte list \<Rightarrow> sha1_state" where
  "compress h blk =
     (case h of (h0, h1, h2, h3, h4) \<Rightarrow>
        (case rounds 0 (schedule 80 (be_words blk)) h of (a, b, c, d, e) \<Rightarrow>
           (h0 + a, h1 + b, h2 + c, h3 + d, h4 + e)))"

definition sha1_init :: sha1_state where
  "sha1_init = (0x67452301, 0xEFCDAB89, 0x98BADCFE, 0x10325476, 0xC3D2E1F0)"

definition sha1 :: "byte list \<Rightarrow> sha1_state" where
  "sha1 m = foldl compress sha1_init (blocks (sha1_pad m))"

definition nibble :: "nat \<Rightarrow> u32 \<Rightarrow> char" where
  "nibble k w = hex_digit (unat (drop_bit k w AND 15))"

definition hex_word :: "u32 \<Rightarrow> string" where
  "hex_word w =
     [nibble 28 w, nibble 24 w, nibble 20 w, nibble 16 w,
      nibble 12 w, nibble 8 w, nibble 4 w, nibble 0 w]"

definition hexdigest :: "sha1_state \<Rightarrow> string" where
  "hexdigest h = (case h of (a, b, c, d, e) \<Rightarrow> concat (map hex_word [a, b, c, d, e]))"

section \<open>The cache key\<close>

text \<open>\<open>s.encode("ascii")\<close>: fails on a code point above 127.\<close>

definition is_ascii :: "string \<Rightarrow> bool" where
  "is_ascii s = list_all (\<lambda>c. (of_char c :: nat) < 128) s"

definition encode_ascii :: "string \<Rightarrow> exn + byte list" where
  "encode_ascii s =
     (if is_ascii s then Inr (map (\<lambda>c. word_of_nat (of_char c)) s) else Inl UnicodeEncodeError)"

text \<open>\<open>s[-16:]\<close>.\<close>

definition last16 :: "string \<Rightarrow> string" where
  "last16 s = drop (length s - 16) s"

text \<open>
  \<open>cache_hash(args)\<close> is
  \<open>sha1(','.join(map(repr, args)).encode("ascii")).hexdigest()[-16:]\<close>;
  \<open>canonical_text\<close> is the text that is encoded and hashed.
\<close>

definition canonical_text :: "pyval list \<Rightarrow> string" where
  "canonical_text args = join '','' (map repr args)"

definition cache_hash :: "pyval list \<Rightarrow> exn + string" where
  "cache_hash args =
     (case encode_ascii (canonical_text args) of
        Inl e \<Rightarrow> Inl e
      | Inr bs \<Rightarrow> Inr (last16 (hexdigest (sha1 bs))))"

text \<open>
  The key in the specification's words: the hash of the comma-joined reprs of the
  positional values in order, followed by those of the keyword values.
\<close>

definition spec_cache_key :: "pyval list \<Rightarrow> (string \<times> pyval) list \<Rightarrow> exn + string" where
  "spec_cache_key positional kwargs = cache_hash (positional @ map snd kwargs)"

section \<open>Callables\<close>

text \<open>
  A function object: its \<open>__qualname__\<close>, its \<open>__name__\<close> and what calling it with
  positional and keyword arguments gives, a result or a raised exception. The wrapped
  callables are pure, so the behaviour is a function of the arguments alone.
\<close>

record pyfunction =
  fn_qualname :: string
  fn_name :: string
  fn_body :: "pyval list \<Rightarrow> (string \<times> pyval) list \<Rightarrow> exn + pyval"

text \<open>
  The runtime types the wrapper inspects. In CPython \<open>types.BuiltinFunctionType\<close> and
  \<open>types.BuiltinMethodType\<close> are one and the same type, \<open>builtin_function_or_method\<close>
  (\<open>type(len)\<close> and \<open>type([].append)\<close>).
\<close>

datatype pytype = FunctionType | BuiltinFunctionOrMethodType | MethodType | OtherType string

text \<open>
  The objects a decorator can receive: a plain function (\<open>def\<close>, \<open>lambda\<close>, a function
  reached through a static method or through the class); a built-in function or bound
  built-in method with its \<open>__self__\<close>, whose \<open>fn_body\<close> is the behaviour of the object
  as it is called, receiver already bound; a bound method, with its \<open>__func__\<close> and its
  \<open>__self__\<close>; any other callable object, with the name of its type.
\<close>

datatype pycallable =
    Function pyfunction
  | Builtin pyfunction pyval
  | Method pyfunction pyval
  | Callable string pyfunction

fun type_of :: "pycallable \<Rightarrow> pytype" where
  "type_of (Function f) = FunctionType"
| "type_of (Builtin f s) = BuiltinFunctionOrMethodType"
| "type_of (Method f s) = MethodType"
| "type_of (Callable t f) = OtherType t"

definition types_FunctionType :: pytype where
  "types_FunctionType = FunctionType"

definition types_BuiltinFunctionType :: pytype where
  "types_BuiltinFunctionType = BuiltinFunctionOrMethodType"

definition types_MethodType :: pytype where
  "types_MethodType = MethodType"

definition types_BuiltinMethodType :: pytype where
  "types_BuiltinMethodType = BuiltinFunctionOrMethodType"

definition function_types :: "pytype list" where
  "function_types = [types_FunctionType, types_BuiltinFunctionType]"

definition method_types :: "pytype list" where
  "method_types = [types_MethodType, types_BuiltinMethodType]"

definition isinstance :: "pycallable \<Rightarrow> pytype list \<Rightarrow> bool" where
  "isinstance func ts = (type_of func \<in> set ts)"

text \<open>The object as it is called and named: a bound method passes its receiver first.\<close>

fun fn_of :: "pycallable \<Rightarrow> pyfunction" where
  "fn_of (Function f) = f"
| "fn_of (Builtin f s) = f"
| "fn_of (Method f s) = f\<lparr>fn_body := (\<lambda>xs. fn_body f (s # xs))\<rparr>"
| "fn_of (Callable t f) = f"

fun dunder_self :: "pycallable \<Rightarrow> pyval option" where
  "dunder_self (Builtin f s) = Some s"
| "dunder_self (Method f s) = Some s"
| "dunder_self func = None"

definition dunder_name :: "pycallable \<Rightarrow> string" where
  "dunder_name func = fn_name (fn_of func)"

text \<open>
  \<open>getattr(cls, name)\<close> on a class: the class table gives the function found under a
  name on a class, \<open>None\<close> where the lookup raises \<open>AttributeError\<close>.
\<close>

type_synonym classtable = "string \<Rightarrow> string \<Rightarrow> pyfunction option"

section \<open>The file system, the clock and the record of invocations\<close>

text \<open>
  A file holds either the pickle of a value or bytes that \<open>pickle.load\<close> cannot read.
  Every value of \<open>pyval\<close> is taken to be picklable, and loading a pickle gives the
  value that was dumped. Every node has a modification time. Time stamps and periods are exact rationals; the
  rounding of float subtraction is not modelled. The clock stands still during one
  call. \<open>calls\<close> records every invocation of a wrapped callable, in order. Paths are
  POSIX paths in normal form, compared as strings.
\<close>

datatype filedata = Pickled pyval | Garbage

datatype node = Dir rat | File rat filedata

record world =
  fs :: "string \<Rightarrow> node option"
  now :: rat
  calls :: "(string \<times> pyval list \<times> (string \<times> pyval) list) list"

fun mtime :: "node \<Rightarrow> rat" where
  "mtime (Dir t) = t"
| "mtime (File t c) = t"

text \<open>\<open>os.path.join(a, b)\<close> and \<open>os.path.dirname(p)\<close>.\<close>

definition join_path :: "string \<Rightarrow> string \<Rightarrow> string" where
  "join_path a b =
     (if b \<noteq> [] \<and> hd b = CHR ''/'' then b
      else if a = [] \<or> last a = CHR ''/'' then a @ b
      else a @ ''/'' @ b)"

definition dirname :: "string \<Rightarrow> string" where
  "dirname p =
     (let head = rev (dropWhile (\<lambda>c. c \<noteq> CHR ''/'') (rev p))
      in if head \<noteq> [] \<and> \<not> list_all (\<lambda>c. c = CHR ''/'') head
         then rev (dropWhile (\<lambda>c. c = CHR ''/'') (rev head))
         else head)"

text \<open>
  Creating an entry under a path needs its directory: the current directory (empty
  \<open>dirname\<close>) or an existing directory node.
\<close>

definition parent_error :: "world \<Rightarrow> string \<Rightarrow> exn option" where
  "parent_error w p =
     (let d = dirname p
      in if d = [] then None
         else (case fs w d of
                 None \<Rightarrow> Some FileNotFoundError
               | Some (File t c) \<Rightarrow> Some NotADirectoryError
               | Some (Dir t) \<Rightarrow> None))"

text \<open>\<open>os.mkdir(p)\<close>.\<close>

definition mkdir :: "string \<Rightarrow> world \<Rightarrow> exn + world" where
  "mkdir p w =
     (if p = [] then Inl FileNotFoundError
      else (case fs w p of
              Some n \<Rightarrow> Inl FileExistsError
            | None \<Rightarrow>
                (case parent_error w p of
                   Some e \<Rightarrow> Inl e
                 | None \<Rightarrow> Inr (w\<lparr>fs := (fs w)(p \<mapsto> Dir (now w))\<rparr>))))"

text \<open>\<open>with open(p, 'rb') as cache_f: state = pickle.load(cache_f)\<close>.\<close>

definition load_file :: "string \<Rightarrow> world \<Rightarrow> exn + pyval" where
  "load_file p w =
     (case fs w p of
        None \<Rightarrow> Inl FileNotFoundError
      | Some (Dir t) \<Rightarrow> Inl IsADirectoryError
      | Some (File t Garbage) \<Rightarrow> Inl UnpicklingError
      | Some (File t (Pickled v)) \<Rightarrow> Inr v)"

text \<open>\<open>with open(p, 'wb') as cache_f: pickle.dump(v, cache_f)\<close>.\<close>

definition dump_file :: "string \<Rightarrow> pyval \<Rightarrow> world \<Rightarrow> exn + world" where
  "dump_file p v w =
     (if p = [] then Inl FileNotFoundError
      else (case fs w p of
              Some (Dir t) \<Rightarrow> Inl IsADirectoryError
            | _ \<Rightarrow>
                (case parent_error w p of
                   Some e \<Rightarrow> Inl e
                 | None \<Rightarrow> Inr (w\<lparr>fs := (fs w)(p \<mapsto> File (now w) (Pickled v))\<rparr>))))"

section \<open>cache_checking_call\<close>

definition CACHE_VER :: string where
  "CACHE_VER = ''v01''"

text \<open>The keyword arguments as the \<open>dict\<close> the callee sees, in call-site order.\<close>

definition kwargs_dict :: "(string \<times> pyval) list \<Rightarrow> pyval" where
  "kwargs_dict kwargs = PDict (map (\<lambda>kv. (PStr (fst kv), snd kv)) kwargs)"

text \<open>\<open>h = cache_hash((args, kwargs))\<close>.\<close>

definition cache_key :: "pyval \<Rightarrow> (string \<times> pyval) list \<Rightarrow> exn + string" where
  "cache_key args kwargs = cache_hash [args, kwargs_dict kwargs]"

text \<open>\<open>cache_fname = os.path.join(cache_path, f"{f.__qualname__}.{h}.cache")\<close>.\<close>

definition cache_file :: "string \<Rightarrow> pyfunction \<Rightarrow> string \<Rightarrow> string" where
  "cache_file cache_path f h = join_path cache_path (fn_qualname f @ ''.'' @ h @ ''.cache'')"

text \<open>\<open>version, args_saved, kwargs_saved, retval = state\<close>.\<close>

definition unpack4 :: "pyval \<Rightarrow> exn + (pyval \<times> pyval \<times> pyval \<times> pyval)" where
  "unpack4 state =
     (case iter_values state of
        None \<Rightarrow> Inl TypeError
      | Some [a, b, c, d] \<Rightarrow> Inr (a, b, c, d)
      | Some xs \<Rightarrow> Inl ValueError)"

text \<open>\<open>f(*args, **kwargs)\<close>: the invocation is recorded, the outcome is the callable's.\<close>

definition invoke ::
  "pyfunction \<Rightarrow> pyval \<Rightarrow> (string \<times> pyval) list \<Rightarrow> world \<Rightarrow> (exn + pyval) \<times> world" where
  "invoke f args kwargs w =
     (case iter_values args of
        None \<Rightarrow> (Inl TypeError, w)
      | Some xs \<Rightarrow> (fn_body f xs kwargs, w\<lparr>calls := calls w @ [(fn_qualname f, xs, kwargs)]\<rparr>))"

text \<open>
  \<open>retval = f(*args, **kwargs)\<close> followed by the common tail of the function, the store
  step: a raise of \<open>f\<close> leaves before the store.
\<close>

definition call_and_store ::
  "pyfunction \<Rightarrow> pyval \<Rightarrow> (string \<times> pyval) list \<Rightarrow> string \<Rightarrow> world \<Rightarrow> (exn + pyval) \<times> world" where
  "call_and_store f args kwargs cache_fname w =
     (case invoke f args kwargs w of
        (Inl e, w1) \<Rightarrow> (Inl e, w1)
      | (Inr retval, w1) \<Rightarrow>
          (case dump_file cache_fname (PTuple [PStr CACHE_VER, args, kwargs_dict kwargs, retval]) w1 of
             Inl e \<Rightarrow> (Inl e, w1)
           | Inr w2 \<Rightarrow> (Inr retval, w2)))"

text \<open>\<open>invalidation_period is None or time.time() - getmtime(cache_fname) <= invalidation_period\<close>.\<close>

definition fresh :: "rat option \<Rightarrow> rat \<Rightarrow> rat \<Rightarrow> bool" where
  "fresh invalidation_period t_now t_file =
     (case invalidation_period of None \<Rightarrow> True | Some d \<Rightarrow> t_now - t_file \<le> d)"

text \<open>
  The engine. \<open>verbose\<close> only prints and is left out. \<open>args\<close> is the tuple or the list
  of positional arguments, \<open>kwargs\<close> the keyword arguments.
\<close>

definition cache_checking_call ::
  "pyfunction \<Rightarrow> pyval \<Rightarrow> (string \<times> pyval) list \<Rightarrow> rat option \<Rightarrow> string \<Rightarrow> world
     \<Rightarrow> (exn + pyval) \<times> world" where
  "cache_checking_call f args kwargs invalidation_period cache_path w =
     (case cache_key args kwargs of
        Inl e \<Rightarrow> (Inl e, w)
      | Inr h \<Rightarrow>
          (let cache_fname = cache_file cache_path f h
           in case fs w cache_fname of
                None \<Rightarrow> call_and_store f args kwargs cache_fname w
              | Some n \<Rightarrow>
                  if fresh invalidation_period (now w) (mtime n) then
                    (case load_file cache_fname w of
                       Inl e \<Rightarrow> (Inl e, w)
                     | Inr state \<Rightarrow>
                         (case unpack4 state of
                            Inl e \<Rightarrow> (Inl e, w)
                          | Inr (version, args_saved, kwargs_saved, retval) \<Rightarrow>
                              if version = PStr CACHE_VER
                                 \<and> repr args_saved = repr args
                                 \<and> repr kwargs_saved = repr (kwargs_dict kwargs)
                              then (Inr retval, w)
                              else call_and_store f args kwargs cache_fname w))
                  else call_and_store f args kwargs cache_fname w))"

section \<open>reproducible_call: the wrapper\<close>

text \<open>The cache directory is created on first use; a file in its place is an error.\<close>

definition ensure_cache_dir :: "string \<Rightarrow> world \<Rightarrow> exn + world" where
  "ensure_cache_dir cache_path w =
     (case fs w cache_path of
        Some (Dir t) \<Rightarrow> Inr w
      | Some (File t c) \<Rightarrow> Inl RuntimeError
      | None \<Rightarrow> mkdir cache_path w)"

text \<open>
  \<open>reproducible_call(cache_path, invalidation_period)(func)(*args, **kwargs)\<close>, with the
  class table of the running program.
\<close>

definition reproducible_call ::
  "classtable \<Rightarrow> string \<Rightarrow> rat option \<Rightarrow> pycallable \<Rightarrow> pyval list \<Rightarrow> (string \<times> pyval) list
     \<Rightarrow> world \<Rightarrow> (exn + pyval) \<times> world" where
  "reproducible_call ct cache_path invalidation_period func args kwargs w =
     (case ensure_cache_dir cache_path w of
        Inl e \<Rightarrow> (Inl e, w)
      | Inr w1 \<Rightarrow>
          if isinstance func function_types then
            cache_checking_call (fn_of func) (PTuple args) kwargs invalidation_period cache_path w1
          else if isinstance func method_types then
            (case dunder_self func of
               None \<Rightarrow> (Inl AttributeError, w1)
             | Some receiver \<Rightarrow>
                 (case ct (class_of receiver) (dunder_name func) of
                    None \<Rightarrow> (Inl AttributeError, w1)
                  | Some unbound_f \<Rightarrow>
                      cache_checking_call unbound_f (PList (receiver # args)) kwargs
                        invalidation_period cache_path w1))
          else (Inl AssertionError, w1))"

section \<open>Concrete calls and worlds\<close>

text \<open>
  The call \<open>f(10, 20, c=30, d=4)\<close> of the test suite, where \<open>f(a, b, *, c, d=0)\<close> returns
  \<open>a * b + c * d\<close>, and a callable of the same name that raises.
\<close>

definition args_10_20 :: pyval where
  "args_10_20 = PTuple [PInt 10, PInt 20]"

definition kwargs_c_d :: "(string \<times> pyval) list" where
  "kwargs_c_d = [(''c'', PInt 30), (''d'', PInt 4)]"

fun test_body :: "pyval list \<Rightarrow> (string \<times> pyval) list \<Rightarrow> exn + pyval" where
  "test_body [PInt a, PInt b] kw =
     (case (map_of kw ''c'', map_of kw ''d'') of
        (Some (PInt c), Some (PInt d)) \<Rightarrow> Inr (PInt (a * b + c * d))
      | _ \<Rightarrow> Inl TypeError)"
| "test_body xs kw = Inl TypeError"

definition test_f :: pyfunction where
  "test_f = \<lparr>fn_qualname = ''f'', fn_name = ''f'', fn_body = test_body\<rparr>"

definition raising :: pyfunction where
  "raising = \<lparr>fn_qualname = ''f'', fn_name = ''f'',
              fn_body = (\<lambda>xs kw. Inl (UserError ''boom''))\<rparr>"

text \<open>
  An empty cache directory at time 100; the same after the call has run once; and, at
  time 100, a directory whose entry for the call was written at time 5.
\<close>

definition empty_cache :: world where
  "empty_cache = \<lparr>fs = [''cache'' \<mapsto> Dir 0], now = 100, calls = []\<rparr>"

definition warm_cache :: world where
  "warm_cache =
     \<lparr>fs = [''cache'' \<mapsto> Dir 0,
            ''cache/f.5270d670cd06f7c9.cache'' \<mapsto>
               File 100 (Pickled (PTuple [PStr ''v01'', args_10_20, kwargs_dict kwargs_c_d, PInt 320]))],
      now = 100, calls = [(''f'', [PInt 10, PInt 20], kwargs_c_d)]\<rparr>"

definition stale_world :: world where
  "stale_world =
     \<lparr>fs = [''cache'' \<mapsto> Dir 0,
            ''cache/f.5270d670cd06f7c9.cache'' \<mapsto>
               File 5 (Pickled (PTuple [PStr ''v01'', args_10_20, kwargs_dict kwargs_c_d, PInt 320]))],
      now = 100, calls = []\<rparr>"

text \<open>The same directory with an unreadable entry, and with an entry of an older format.\<close>

definition garbled_world :: world where
  "garbled_world =
     \<lparr>fs = [''cache'' \<mapsto> Dir 0, ''cache/f.5270d670cd06f7c9.cache'' \<mapsto> File 5 Garbage],
      now = 100, calls = []\<rparr>"

definition old_version_world :: world where
  "old_version_world =
     \<lparr>fs = [''cache'' \<mapsto> Dir 0,
            ''cache/f.5270d670cd06f7c9.cache'' \<mapsto>
               File 5 (Pickled (PTuple [PStr ''v00'', args_10_20, kwargs_dict kwargs_c_d, PInt 7]))],
      now = 100, calls = []\<rparr>"

text \<open>
  A callable of an unsupported kind, a program without classes, a file system without
  the cache directory, and an argument whose repr is not ASCII, the one-character
  string of code point 0xE9.
\<close>

definition partial_obj :: pycallable where
  "partial_obj = Callable ''functools.partial'' test_f"

definition no_classes :: classtable where
  "no_classes = (\<lambda>c n. None)"

definition blank_world :: world where
  "blank_world = \<lparr>fs = Map.empty, now = 100, calls = []\<rparr>"

definition e_acute :: pyval where
  "e_acute = PStr [CHR 0xE9]"

text \<open>The same keyword arguments, supplied in the other order.\<close>

definition kwargs_d_c :: "(string \<times> pyval) list" where
  "kwargs_d_c = [(''d'', PInt 4), (''c'', PInt 30)]"














section \<open>Evaluating the hash\<close>

lemma schedule_numeral:
  "schedule (numeral k) ws = hd ws # schedule (pred_numeral k) (tl ws @ [next_w ws])"
  by (simp add: numeral_eq_Suc)

lemma replicate_numeral:
  "replicate (numeral k) x = x # replicate (pred_numeral k) x"
  by (simp add: numeral_eq_Suc)

lemmas eval_repr = repr_int_def digits.simps hex_digit_def repr_str_def quote_of_def
  repr_char_def kwargs_dict_def

lemmas eval_sha1 = sha1_def sha1_pad_def be_length_def compress_def sha1_init_def
  schedule_numeral replicate_numeral next_w_def rotl_def sha1_f_def sha1_k_def
  hexdigest_def hex_word_def nibble_def last16_def

text \<open>The test suite expects the file \<open>f.5270d670cd06f7c9.cache\<close> for this call.\<close>

lemma key_10_20_c_d: "cache_key args_10_20 kwargs_c_d = Inr ''5270d670cd06f7c9''"
  by (simp add: cache_key_def args_10_20_def kwargs_c_d_def cache_hash_def canonical_text_def
      encode_ascii_def is_ascii_def eval_repr eval_sha1 Let_def)

text \<open>
  The same call with its keyword arguments in the other order, and the key in the
  spec's words.
\<close>

lemma key_10_20_d_c: "cache_key args_10_20 kwargs_d_c = Inr ''af1383aecdd51b22''"
  by (simp add: cache_key_def args_10_20_def kwargs_d_c_def cache_hash_def canonical_text_def
      encode_ascii_def is_ascii_def eval_repr eval_sha1 Let_def)

lemma spec_key_10_20_c_d: "spec_cache_key [PInt 10, PInt 20] kwargs_c_d = Inr ''06edfb68a89d8f9a''"
  by (simp add: spec_cache_key_def kwargs_c_d_def cache_hash_def canonical_text_def
      encode_ascii_def is_ascii_def eval_repr eval_sha1 Let_def)



subsection \<open>The shape of a key\<close>

lemma hex_digit_in: "hex_digit n \<in> set ''0123456789abcdef''"
  unfolding hex_digit_def by (rule nth_mem) simp

lemma hexdigest_length: "length (hexdigest s) = 40"
  by (cases s) (simp add: hexdigest_def hex_word_def)

lemma hexdigest_chars: "set (hexdigest s) \<subseteq> set ''0123456789abcdef''"
proof -
  define H where "H = set ''0123456789abcdef''"
  have "nibble k w \<in> H" for k w
    unfolding nibble_def H_def by (rule hex_digit_in)
  then have "set (hex_word w) \<subseteq> H" for w
    by (simp add: hex_word_def)
  then have "set (hexdigest s) \<subseteq> H"
    by (cases s) (simp add: hexdigest_def)
  then show ?thesis by (simp only: H_def)
qed

lemma cache_hash_Inr: "cache_hash xs = Inr h \<Longrightarrow> \<exists>s. h = last16 (hexdigest s)"
proof (cases "encode_ascii (canonical_text xs)")
  case (Inl e)
  assume "cache_hash xs = Inr h"
  with Inl show ?thesis by (simp add: cache_hash_def)
next
  case (Inr bs)
  assume "cache_hash xs = Inr h"
  with Inr have "h = last16 (hexdigest (sha1 bs))" by (simp add: cache_hash_def)
  then show ?thesis ..
qed

lemma last16_length: "length s = 40 \<Longrightarrow> length (last16 s) = 16"
  by (simp add: last16_def)

lemma last16_chars: "set (last16 s) \<subseteq> set s"
  unfolding last16_def by (rule set_drop_subset)

section \<open>The engine, case by case\<close>

lemma cache_file_nonempty: "cache_file cache_path f h \<noteq> []"
  by (simp add: cache_file_def join_path_def)

lemma parent_error_calls [simp]: "parent_error (w\<lparr>calls := c\<rparr>) p = parent_error w p"
  by (simp add: parent_error_def Let_def)

lemma unpack4_tuple: "unpack4 (PTuple [a, b, c, d]) = Inr (a, b, c, d)"
  by (simp add: unpack4_def)

lemma store_on_miss:
  assumes "cache_key args kwargs = Inr h"
    and "fs w (cache_file cache_path f h) = None"
    and "parent_error w (cache_file cache_path f h) = None"
    and "iter_values args = Some xs" and "fn_body f xs kwargs = Inr r"
  shows "cache_checking_call f args kwargs ttl cache_path w
           = (Inr r, w\<lparr>calls := calls w @ [(fn_qualname f, xs, kwargs)],
                        fs := (fs w)(cache_file cache_path f h \<mapsto>
                          File (now w) (Pickled (PTuple [PStr CACHE_VER, args, kwargs_dict kwargs, r])))\<rparr>)"
  using assms
  by (simp add: cache_checking_call_def call_and_store_def invoke_def dump_file_def
      cache_file_nonempty Let_def)

lemma store_on_unusable:
  assumes "cache_key args kwargs = Inr h"
    and "fs w (cache_file cache_path f h) = Some (File t (Pickled state))"
    and "unpack4 state = Inr (version, args_saved, kwargs_saved, retval)"
    and "\<not> (version = PStr CACHE_VER \<and> fresh ttl (now w) t \<and> repr args_saved = repr args
            \<and> repr kwargs_saved = repr (kwargs_dict kwargs))"
    and "parent_error w (cache_file cache_path f h) = None"
    and "iter_values args = Some xs" and "fn_body f xs kwargs = Inr r"
  shows "cache_checking_call f args kwargs ttl cache_path w
           = (Inr r, w\<lparr>calls := calls w @ [(fn_qualname f, xs, kwargs)],
                        fs := (fs w)(cache_file cache_path f h \<mapsto>
                          File (now w) (Pickled (PTuple [PStr CACHE_VER, args, kwargs_dict kwargs, r])))\<rparr>)"
  using assms
  by (auto simp add: cache_checking_call_def call_and_store_def invoke_def dump_file_def
      load_file_def cache_file_nonempty Let_def)

lemma hit_on_usable:
  assumes "cache_key args kwargs = Inr h"
    and "fs w (cache_file cache_path f h) = Some (File t (Pickled state))"
    and "unpack4 state = Inr (PStr CACHE_VER, args_saved, kwargs_saved, retval)"
    and "fresh ttl (now w) t"
    and "repr args_saved = repr args" and "repr kwargs_saved = repr (kwargs_dict kwargs)"
  shows "cache_checking_call f args kwargs ttl cache_path w = (Inr retval, w)"
  using assms
  by (simp add: cache_checking_call_def load_file_def Let_def)

subsection \<open>The test call on concrete worlds\<close>

lemma test_f_320: "fn_body test_f [PInt 10, PInt 20] kwargs_c_d = Inr (PInt 320)"
  by (simp add: test_f_def kwargs_c_d_def)

lemma iter_args_10_20: "iter_values args_10_20 = Some [PInt 10, PInt 20]"
  by (simp add: args_10_20_def)

lemma entry_path_f:
  "fn_qualname g = ''f'' \<Longrightarrow>
     cache_file ''cache'' g ''5270d670cd06f7c9'' = ''cache/f.5270d670cd06f7c9.cache''"
  by (simp add: cache_file_def join_path_def)

lemma entry_path_test_f:
  "cache_file ''cache'' test_f ''5270d670cd06f7c9'' = ''cache/f.5270d670cd06f7c9.cache''"
  by (rule entry_path_f) (simp add: test_f_def)

lemma entry_dirname: "dirname ''cache/f.5270d670cd06f7c9.cache'' = ''cache''"
  by (simp add: dirname_def)

lemma empty_cache_miss:
  "fs empty_cache (cache_file ''cache'' test_f ''5270d670cd06f7c9'') = None"
  by (simp add: entry_path_test_f empty_cache_def)

lemma empty_cache_dir:
  "parent_error empty_cache (cache_file ''cache'' test_f ''5270d670cd06f7c9'') = None"
  by (simp add: entry_path_test_f parent_error_def entry_dirname empty_cache_def)

lemma first_call_result:
  "cache_checking_call test_f args_10_20 kwargs_c_d ttl ''cache'' empty_cache
     = (Inr (PInt 320), warm_cache)"
  using store_on_miss [OF key_10_20_c_d empty_cache_miss empty_cache_dir iter_args_10_20
      test_f_320, of ttl]
  unfolding entry_path_test_f
  by (simp add: empty_cache_def warm_cache_def CACHE_VER_def test_f_def)



subsection \<open>What a call can change\<close>



subsection \<open>ASCII texts\<close>

lemma is_ascii_iff: "is_ascii s \<longleftrightarrow> (\<forall>c \<in> set s. (of_char c :: nat) < 128)"
  by (simp add: is_ascii_def list_all_iff)

lemma is_ascii_subset: "set a \<subseteq> set b \<Longrightarrow> is_ascii b \<Longrightarrow> is_ascii a"
  by (auto simp add: is_ascii_iff)

lemma set_join: "x \<in> set xs \<Longrightarrow> set x \<subseteq> set (join sep xs)"
  by (induction sep xs rule: join.induct) auto

lemma repr_tuple_contains: "v \<in> set xs \<Longrightarrow> set (repr v) \<subseteq> set (repr (PTuple xs))"
proof -
  assume v: "v \<in> set xs"
  consider "xs = []" | x where "xs = [x]" | x y ys where "xs = x # y # ys"
    by (cases xs rule: list.exhaust [case_product list.exhaust]) (auto, metis list.exhaust)
  then show ?thesis
  proof cases
    case 1
    with v show ?thesis by simp
  next
    case 2
    with v show ?thesis by auto
  next
    case 3
    from v have "repr v \<in> set (map repr xs)" by simp
    from set_join [OF this, of "'', ''"] 3 show ?thesis by auto
  qed
qed

lemma repr_list_contains: "v \<in> set xs \<Longrightarrow> set (repr v) \<subseteq> set (repr (PList xs))"
proof -
  assume "v \<in> set xs"
  then have "repr v \<in> set (map repr xs)" by simp
  from set_join [OF this, of "'', ''"] show ?thesis by auto
qed

lemma repr_kwargs_contains:
  "v \<in> snd ` set kwargs \<Longrightarrow> set (repr v) \<subseteq> set (repr (kwargs_dict kwargs))"
proof -
  assume "v \<in> snd ` set kwargs"
  then obtain k where kv: "(k, v) \<in> set kwargs" by auto
  let ?item = "\<lambda>kv. repr (fst kv) @ '': '' @ repr (snd kv)"
  let ?items = "map (\<lambda>kv. (PStr (fst kv), snd kv)) kwargs"
  from kv have "(PStr k, v) \<in> set ?items" by force
  then have "?item (PStr k, v) \<in> ?item ` set ?items" by (rule imageI)
  then have "?item (PStr k, v) \<in> set (map ?item ?items)" by (simp only: set_map)
  from set_join [OF this, of "'', ''"] show ?thesis
    by (auto simp add: kwargs_dict_def)
qed

lemma canonical_text_pair: "canonical_text [a, b] = repr a @ '','' @ repr b"
  by (simp add: canonical_text_def)

lemma cache_key_not_ascii:
  "\<not> is_ascii (canonical_text [args, kwargs_dict kwargs])
     \<Longrightarrow> cache_key args kwargs = Inl UnicodeEncodeError"
  by (simp add: cache_key_def cache_hash_def encode_ascii_def)

lemma non_ascii_argument:
  assumes "args = PTuple xs \<or> args = PList xs"
    and "v \<in> set xs \<or> v \<in> snd ` set kwargs"
    and "\<not> is_ascii (repr v)"
  shows "cache_key args kwargs = Inl UnicodeEncodeError"
proof (rule cache_key_not_ascii)
  from assms(1,2) have "set (repr v) \<subseteq> set (canonical_text [args, kwargs_dict kwargs])"
    using repr_tuple_contains [of v xs] repr_list_contains [of v xs]
      repr_kwargs_contains [of v kwargs]
    by (auto simp add: canonical_text_pair)
  with assms(3) show "\<not> is_ascii (canonical_text [args, kwargs_dict kwargs])"
    using is_ascii_subset by blast
qed

lemma engine_encoding_error:
  "cache_key args kwargs = Inl e \<Longrightarrow> cache_checking_call f args kwargs ttl cache_path w = (Inl e, w)"
  by (simp add: cache_checking_call_def)

lemma repr_e_acute: "\<not> is_ascii (repr e_acute)"
  by (simp add: e_acute_def is_ascii_def repr_str_def quote_of_def repr_char_def Let_def)

subsection \<open>The wrapper's dispatch\<close>




lemma unsupported_iff:
  "\<not> isinstance func function_types \<and> \<not> isinstance func method_types
     \<longleftrightarrow> (\<exists>t f. func = Callable t f)"
  by (cases func)
    (simp_all add: isinstance_def function_types_def method_types_def types_FunctionType_def
      types_BuiltinFunctionType_def types_MethodType_def types_BuiltinMethodType_def)





subsection \<open>Fingerprints are not injective\<close>

text \<open>
  A key has at most 16 characters, so there are finitely many keys and infinitely many
  receivers with pairwise different reprs: some two of them share a key.
\<close>

lemma fingerprint_collision:
  "\<not> (\<forall>r r'. repr r \<noteq> repr r' \<longrightarrow> cache_key (PList [r]) [] \<noteq> cache_key (PList [r']) [])"
proof
  assume sep: "\<forall>r r'. repr r \<noteq> repr r' \<longrightarrow> cache_key (PList [r]) [] \<noteq> cache_key (PList [r']) []"
  define g where "g n = cache_key (PList [PObj ''A'' (replicate n (CHR ''a''))]) []" for n
  have "inj g"
  proof (rule injI)
    fix n m assume eq: "g n = g m"
    show "n = m"
    proof (rule ccontr)
      assume "n \<noteq> m"
      then have "repr (PObj ''A'' (replicate n (CHR ''a''))) \<noteq> repr (PObj ''A'' (replicate m (CHR ''a'')))"
        by (auto dest: arg_cong [where f = length])
      with sep eq show False unfolding g_def by blast
    qed
  qed
  have short: "length (last16 s) \<le> 16" for s
    by (simp add: last16_def)
  have "range g \<subseteq> insert (Inl UnicodeEncodeError) (Inr ` {s. set s \<subseteq> UNIV \<and> length s \<le> 16})"
  proof
    fix k assume "k \<in> range g"
    then obtain n where k: "k = g n" by blast
    show "k \<in> insert (Inl UnicodeEncodeError) (Inr ` {s. set s \<subseteq> UNIV \<and> length s \<le> 16})"
      unfolding k g_def cache_key_def cache_hash_def encode_ascii_def
      using short by (auto split: sum.splits)
  qed
  moreover have "finite (insert (Inl UnicodeEncodeError :: exn + string)
      (Inr ` {s. set s \<subseteq> UNIV \<and> length s \<le> 16}))"
    using finite_lists_length_le [of "UNIV :: char set" 16] by simp
  ultimately have "finite (range g)" by (rule finite_subset)
  then have "finite (UNIV :: nat set)" using \<open>inj g\<close> by (rule finite_imageD)
  then show False by simp
qed

section \<open>The properties of the specification\<close>

text \<open>
  C1. Idempotence of the fast path. With the cache directory in place, the arguments'
  text ASCII and no entry yet, the first call of a callable that returns \<open>r\<close> invokes
  it once and returns \<open>r\<close>; the same call made at a later time \<open>t2\<close>, with no ttl or
  with \<open>t2\<close> within ttl of the first call, returns \<open>r\<close> and leaves the world as it
  found it: no further invocation is recorded and the entry, with its modification
  time, is the one the first call wrote.
\<close>

theorem idempotent_fast_path:
  assumes "cache_key args kwargs = Inr h"
    and "fs w (cache_file cache_path g h) = None"
    and "parent_error w (cache_file cache_path g h) = None"
    and "iter_values args = Some xs" and "fn_body g xs kwargs = Inr r"
    and "w1 = snd (cache_checking_call g args kwargs ttl cache_path w)"
    and "fresh ttl t2 (now w)"
  shows "cache_checking_call g args kwargs ttl cache_path w = (Inr r, w1)
       \<and> calls w1 = calls w @ [(fn_qualname g, xs, kwargs)]
       \<and> cache_checking_call g args kwargs ttl cache_path (w1\<lparr>now := t2\<rparr>)
           = (Inr r, w1\<lparr>now := t2\<rparr>)"
proof -
  let ?p = "cache_file cache_path g h"
  let ?entry = "File (now w) (Pickled (PTuple [PStr CACHE_VER, args, kwargs_dict kwargs, r]))"
  have first: "cache_checking_call g args kwargs ttl cache_path w
      = (Inr r, w\<lparr>calls := calls w @ [(fn_qualname g, xs, kwargs)], fs := (fs w)(?p \<mapsto> ?entry)\<rparr>)"
    using assms(1-5) by (rule store_on_miss)
  then have w1: "w1 = w\<lparr>calls := calls w @ [(fn_qualname g, xs, kwargs)], fs := (fs w)(?p \<mapsto> ?entry)\<rparr>"
    using assms(6) by simp
  have "cache_checking_call g args kwargs ttl cache_path (w1\<lparr>now := t2\<rparr>) = (Inr r, w1\<lparr>now := t2\<rparr>)"
  proof (rule hit_on_usable [OF assms(1)])
    show "fs (w1\<lparr>now := t2\<rparr>) ?p = Some ?entry" by (simp add: w1)
    show "unpack4 (PTuple [PStr CACHE_VER, args, kwargs_dict kwargs, r])
            = Inr (PStr CACHE_VER, args, kwargs_dict kwargs, r)" by (rule unpack4_tuple)
    show "fresh ttl (now (w1\<lparr>now := t2\<rparr>)) (now w)" using assms(7) by simp
  qed simp_all
  with first w1 show ?thesis by simp
qed

theorem idempotent_fast_path_witness:
  "cache_checking_call test_f args_10_20 kwargs_c_d (Some 10) ''cache'' empty_cache
     = (Inr (PInt 320), warm_cache)
   \<and> cache_checking_call test_f args_10_20 kwargs_c_d (Some 10) ''cache'' (warm_cache\<lparr>now := 105\<rparr>)
     = (Inr (PInt 320), warm_cache\<lparr>now := 105\<rparr>)"
proof -
  have within: "fresh (Some 10) 105 (now empty_cache)"
    by (simp add: fresh_def empty_cache_def)
  from idempotent_fast_path [OF key_10_20_c_d empty_cache_miss empty_cache_dir iter_args_10_20
      test_f_320 refl within]
  show ?thesis by (simp add: first_call_result)
qed

text \<open>
  C2. Cache validity is the conjunction of three checks. Where the entry file exists
  and holds a stored 4-tuple, the stored result is returned, with the world untouched,
  exactly when the stored version is the current one, the entry is fresh (no ttl, or
  its modification time within ttl of now) and the stored arguments and keyword
  arguments have the reprs of the requested ones. Otherwise the callable is invoked
  and, when it returns, the entry is overwritten with the new tuple and the current
  time.
\<close>

theorem cache_validity:
  assumes "cache_key args kwargs = Inr h"
    and "fs w (cache_file cache_path f h) = Some (File t (Pickled state))"
    and "unpack4 state = Inr (version, args_saved, kwargs_saved, retval)"
    and "parent_error w (cache_file cache_path f h) = None"
    and "iter_values args = Some xs" and "fn_body f xs kwargs = Inr r"
  shows "cache_checking_call f args kwargs ttl cache_path w =
     (if version = PStr CACHE_VER \<and> fresh ttl (now w) t \<and> repr args_saved = repr args
         \<and> repr kwargs_saved = repr (kwargs_dict kwargs)
      then (Inr retval, w)
      else (Inr r, w\<lparr>calls := calls w @ [(fn_qualname f, xs, kwargs)],
                      fs := (fs w)(cache_file cache_path f h \<mapsto>
                        File (now w) (Pickled (PTuple [PStr CACHE_VER, args, kwargs_dict kwargs, r])))\<rparr>))"
proof (cases "version = PStr CACHE_VER \<and> fresh ttl (now w) t \<and> repr args_saved = repr args
         \<and> repr kwargs_saved = repr (kwargs_dict kwargs)")
  case True
  with assms(1-3) show ?thesis by (simp add: hit_on_usable)
next
  case False
  have "cache_checking_call f args kwargs ttl cache_path w
      = (Inr r, w\<lparr>calls := calls w @ [(fn_qualname f, xs, kwargs)],
                    fs := (fs w)(cache_file cache_path f h \<mapsto>
                      File (now w) (Pickled (PTuple [PStr CACHE_VER, args, kwargs_dict kwargs, r])))\<rparr>)"
    by (rule store_on_unusable [OF assms(1-3) False assms(4-6)])
  then show ?thesis by (simp only: False if_False)
qed

theorem cache_validity_witness:
  "cache_checking_call test_f args_10_20 kwargs_c_d None ''cache'' stale_world
     = (Inr (PInt 320), stale_world)
   \<and> cache_checking_call test_f args_10_20 kwargs_c_d (Some 10) ''cache'' stale_world
     = (Inr (PInt 320), warm_cache)"
proof -
  have entry: "fs stale_world (cache_file ''cache'' test_f ''5270d670cd06f7c9'')
      = Some (File 5 (Pickled (PTuple [PStr ''v01'', args_10_20, kwargs_dict kwargs_c_d, PInt 320])))"
    by (simp add: entry_path_test_f stale_world_def)
  have dir: "parent_error stale_world (cache_file ''cache'' test_f ''5270d670cd06f7c9'') = None"
    by (simp add: entry_path_test_f parent_error_def entry_dirname stale_world_def)
  note rule = cache_validity [OF key_10_20_c_d entry unpack4_tuple dir iter_args_10_20 test_f_320]
  have "cache_checking_call test_f args_10_20 kwargs_c_d None ''cache'' stale_world
     = (Inr (PInt 320), stale_world)"
    using rule [of None] by (simp add: fresh_def CACHE_VER_def)
  moreover have "cache_checking_call test_f args_10_20 kwargs_c_d (Some 10) ''cache'' stale_world
     = (Inr (PInt 320), warm_cache)"
    using rule [of "Some 10"] unfolding entry_path_test_f
    by (simp add: fresh_def CACHE_VER_def stale_world_def warm_cache_def test_f_def)
  ultimately show ?thesis by simp
qed




text \<open>
  C4, as amended. The cache key is the last 16 hexadecimal characters of the SHA-1 of
  the ASCII encoding of \<open>repr(args) + ',' + repr(kwargs)\<close>: the comma joins two texts,
  the repr of the positional arguments as one tuple (or list) and the repr of the
  keyword arguments as one dict, keys included. Where that text is not ASCII there is
  no key but an encoding error.
\<close>

theorem cache_key_construction:
  "cache_key args kwargs =
     (if is_ascii (repr args @ '','' @ repr (kwargs_dict kwargs))
      then Inr (last16 (hexdigest (sha1 (map (\<lambda>c. word_of_nat (of_char c))
                  (repr args @ '','' @ repr (kwargs_dict kwargs))))))
      else Inl UnicodeEncodeError)
   \<and> (cache_key args kwargs = Inr h \<longrightarrow> length h = 16 \<and> set h \<subseteq> set ''0123456789abcdef'')"
proof -
  have shape: "cache_key args kwargs =
     (if is_ascii (repr args @ '','' @ repr (kwargs_dict kwargs))
      then Inr (last16 (hexdigest (sha1 (map (\<lambda>c. word_of_nat (of_char c))
                  (repr args @ '','' @ repr (kwargs_dict kwargs))))))
      else Inl UnicodeEncodeError)"
    by (simp add: cache_key_def cache_hash_def canonical_text_def encode_ascii_def)
  have "length h = 16 \<and> set h \<subseteq> set ''0123456789abcdef''" if "cache_key args kwargs = Inr h"
  proof -
    from that obtain s where h: "h = last16 (hexdigest s)"
      unfolding cache_key_def by (blast dest: cache_hash_Inr)
    have "set h \<subseteq> set (hexdigest s)" unfolding h by (rule last16_chars)
    then have "set h \<subseteq> set ''0123456789abcdef''" using hexdigest_chars [of s] by (rule subset_trans)
    moreover have "length h = 16" unfolding h by (rule last16_length) (rule hexdigest_length)
    ultimately show ?thesis by simp
  qed
  with shape show ?thesis by blast
qed

theorem cache_key_construction_witness:
  "Inr ''5270d670cd06f7c9'' =
     (if is_ascii (repr args_10_20 @ '','' @ repr (kwargs_dict kwargs_c_d))
      then Inr (last16 (hexdigest (sha1 (map (\<lambda>c. word_of_nat (of_char c))
                  (repr args_10_20 @ '','' @ repr (kwargs_dict kwargs_c_d))))))
      else Inl UnicodeEncodeError)
   \<and> length ''5270d670cd06f7c9'' = 16 \<and> set ''5270d670cd06f7c9'' \<subseteq> set ''0123456789abcdef''"
  using cache_key_construction [of args_10_20 kwargs_c_d "''5270d670cd06f7c9''"]
  unfolding key_10_20_c_d by simp

text \<open>
  C4 as stated fails: for \<open>f(10, 20, c=30, d=4)\<close> the key is the hash of
  \<open>(10, 20),{'c': 30, 'd': 4}\<close>, not of the comma-joined reprs \<open>10,20,30,4\<close> of the
  values.
\<close>

theorem cache_key_counterexample:
  "cache_key (PTuple [PInt 10, PInt 20]) kwargs_c_d = Inr ''5270d670cd06f7c9''
   \<and> spec_cache_key [PInt 10, PInt 20] kwargs_c_d = Inr ''06edfb68a89d8f9a''
   \<and> cache_key (PTuple [PInt 10, PInt 20]) kwargs_c_d \<noteq> spec_cache_key [PInt 10, PInt 20] kwargs_c_d"
  using key_10_20_c_d spec_key_10_20_c_d by (simp add: args_10_20_def)

text \<open>
  C5, as amended. Two calls whose positional arguments have the same repr and whose
  keyword arguments have the same repr as a dict, as they do when the same keyword
  arguments are supplied in the same order, have the same cache key, and the second
  call is served from the entry the first one wrote.
\<close>

theorem same_reprs_same_entry:
  assumes "repr args' = repr args"
    and "repr (kwargs_dict kwargs') = repr (kwargs_dict kwargs)"
    and "cache_key args kwargs = Inr h"
    and "fs w (cache_file cache_path f h) = None"
    and "parent_error w (cache_file cache_path f h) = None"
    and "iter_values args = Some xs" and "fn_body f xs kwargs = Inr r"
    and "w1 = snd (cache_checking_call f args kwargs ttl cache_path w)"
    and "fresh ttl t2 (now w)"
  shows "cache_key args' kwargs' = cache_key args kwargs
       \<and> cache_checking_call f args' kwargs' ttl cache_path (w1\<lparr>now := t2\<rparr>)
           = (Inr r, w1\<lparr>now := t2\<rparr>)"
proof -
  let ?p = "cache_file cache_path f h"
  let ?entry = "File (now w) (Pickled (PTuple [PStr CACHE_VER, args, kwargs_dict kwargs, r]))"
  have same: "cache_key args' kwargs' = cache_key args kwargs"
    using assms(1,2) by (simp add: cache_key_def cache_hash_def canonical_text_def)
  have "cache_checking_call f args kwargs ttl cache_path w
      = (Inr r, w\<lparr>calls := calls w @ [(fn_qualname f, xs, kwargs)], fs := (fs w)(?p \<mapsto> ?entry)\<rparr>)"
    using assms(3-7) by (rule store_on_miss)
  then have w1: "w1 = w\<lparr>calls := calls w @ [(fn_qualname f, xs, kwargs)], fs := (fs w)(?p \<mapsto> ?entry)\<rparr>"
    using assms(8) by simp
  have key': "cache_key args' kwargs' = Inr h" using same assms(3) by simp
  have "cache_checking_call f args' kwargs' ttl cache_path (w1\<lparr>now := t2\<rparr>)
      = (Inr r, w1\<lparr>now := t2\<rparr>)"
  proof (rule hit_on_usable [OF key'])
    show "fs (w1\<lparr>now := t2\<rparr>) ?p = Some ?entry" by (simp add: w1)
    show "unpack4 (PTuple [PStr CACHE_VER, args, kwargs_dict kwargs, r])
            = Inr (PStr CACHE_VER, args, kwargs_dict kwargs, r)" by (rule unpack4_tuple)
    show "fresh ttl (now (w1\<lparr>now := t2\<rparr>)) (now w)" using assms(9) by simp
    show "repr args = repr args'" using assms(1) by simp
    show "repr (kwargs_dict kwargs) = repr (kwargs_dict kwargs')" using assms(2) by simp
  qed
  with same show ?thesis by simp
qed

theorem same_reprs_same_entry_witness:
  "cache_key (PTuple [PObj ''Ten'' ''10'', PInt 20]) kwargs_c_d = cache_key args_10_20 kwargs_c_d
   \<and> cache_checking_call test_f (PTuple [PObj ''Ten'' ''10'', PInt 20]) kwargs_c_d None ''cache''
        (warm_cache\<lparr>now := 105\<rparr>)
       = (Inr (PInt 320), warm_cache\<lparr>now := 105\<rparr>)"
proof -
  have h1: "repr (PTuple [PObj ''Ten'' ''10'', PInt 20]) = repr args_10_20"
    by (simp add: args_10_20_def repr_int_def digits.simps hex_digit_def)
  have h9: "fresh None 105 (now empty_cache)" by (simp add: fresh_def)
  from same_reprs_same_entry [OF h1 refl key_10_20_c_d empty_cache_miss empty_cache_dir
      iter_args_10_20 test_f_320 refl h9]
  show ?thesis by (simp add: first_call_result)
qed

text \<open>
  C5 as stated fails: the same keyword arguments in another order give another key.
\<close>

theorem kwargs_order_counterexample:
  "map_of kwargs_c_d = map_of kwargs_d_c
   \<and> distinct (map fst kwargs_c_d) \<and> distinct (map fst kwargs_d_c)
   \<and> cache_key args_10_20 kwargs_c_d = Inr ''5270d670cd06f7c9''
   \<and> cache_key args_10_20 kwargs_d_c = Inr ''af1383aecdd51b22''
   \<and> cache_key args_10_20 kwargs_c_d \<noteq> cache_key args_10_20 kwargs_d_c"
proof -
  have "map_of kwargs_c_d = map_of kwargs_d_c"
    by (rule ext) (simp add: kwargs_c_d_def kwargs_d_c_def)
  then show ?thesis
    using key_10_20_c_d key_10_20_d_c by (simp add: kwargs_c_d_def kwargs_d_c_def)
qed

text \<open>
  C6. A wrapped callable that raises when it is invoked, on a miss, after an expired
  entry or after an entry that fails the version or argument check: the exception is
  the outcome of the call, the invocation is recorded, and the file system is left as
  it was, so nothing is written and an old entry is not overwritten.
\<close>

theorem exception_atomicity:
  assumes "iter_values args = Some xs" and "fn_body f xs kwargs = Inl e"
    and "cache_key args kwargs = Inr h"
    and "fs w (cache_file cache_path f h) = None
         \<or> (\<exists>n. fs w (cache_file cache_path f h) = Some n
                \<and> \<not> fresh invalidation_period (now w) (mtime n))
         \<or> (\<exists>t state version args_saved kwargs_saved retval.
               fs w (cache_file cache_path f h) = Some (File t (Pickled state))
             \<and> unpack4 state = Inr (version, args_saved, kwargs_saved, retval)
             \<and> \<not> (version = PStr CACHE_VER \<and> repr args_saved = repr args
                   \<and> repr kwargs_saved = repr (kwargs_dict kwargs)))"
  shows "cache_checking_call f args kwargs invalidation_period cache_path w
           = (Inl e, w\<lparr>calls := calls w @ [(fn_qualname f, xs, kwargs)]\<rparr>)"
  using assms
  by (auto simp add: cache_checking_call_def call_and_store_def invoke_def load_file_def Let_def
      split: option.splits)

theorem exception_atomicity_witness:
  "cache_checking_call raising args_10_20 kwargs_c_d (Some 10) ''cache'' stale_world
     = (Inl (UserError ''boom''),
        stale_world\<lparr>calls := [(''f'', [PInt 10, PInt 20], kwargs_c_d)]\<rparr>)"
proof -
  have h1: "iter_values args_10_20 = Some [PInt 10, PInt 20]"
    by (simp add: args_10_20_def)
  have h2: "fn_body raising [PInt 10, PInt 20] kwargs_c_d = Inl (UserError ''boom'')"
    by (simp add: raising_def)
  have h3: "fs stale_world (cache_file ''cache'' raising ''5270d670cd06f7c9'') = None
         \<or> (\<exists>n. fs stale_world (cache_file ''cache'' raising ''5270d670cd06f7c9'') = Some n
                \<and> \<not> fresh (Some 10) (now stale_world) (mtime n))
         \<or> (\<exists>t state version args_saved kwargs_saved retval.
               fs stale_world (cache_file ''cache'' raising ''5270d670cd06f7c9'')
                 = Some (File t (Pickled state))
             \<and> unpack4 state = Inr (version, args_saved, kwargs_saved, retval)
             \<and> \<not> (version = PStr CACHE_VER \<and> repr args_saved = repr args_10_20
                   \<and> repr kwargs_saved = repr (kwargs_dict kwargs_c_d)))"
    by (simp add: cache_file_def join_path_def raising_def stale_world_def fresh_def)
  from exception_atomicity [OF h1 h2 key_10_20_c_d h3]
  show ?thesis by (simp add: raising_def stale_world_def)
qed

text \<open>
  C7, as amended. For an existing entry that passes the ttl check: a readable entry
  whose format version differs from the current one is a cache miss, the callable is
  invoked and, when it returns, the entry is overwritten and the result returned. An
  entry that cannot be read, or that does not unpack into four items, is not absorbed:
  the error of the load is the outcome of the call, nothing is invoked and the entry
  stays as it is.
\<close>

theorem corrupt_entry:
  assumes "cache_key args kwargs = Inr h" and "fresh ttl (now w) t"
  shows "(fs w (cache_file cache_path f h) = Some (File t (Pickled state))
          \<and> unpack4 state = Inr (version, args_saved, kwargs_saved, retval)
          \<and> version \<noteq> PStr CACHE_VER
          \<and> parent_error w (cache_file cache_path f h) = None
          \<and> iter_values args = Some xs \<and> fn_body f xs kwargs = Inr r
          \<longrightarrow> cache_checking_call f args kwargs ttl cache_path w
                = (Inr r, w\<lparr>calls := calls w @ [(fn_qualname f, xs, kwargs)],
                     fs := (fs w)(cache_file cache_path f h \<mapsto>
                       File (now w) (Pickled (PTuple [PStr CACHE_VER, args, kwargs_dict kwargs, r])))\<rparr>))
       \<and> (fs w (cache_file cache_path f h) = Some (File t Garbage)
          \<longrightarrow> cache_checking_call f args kwargs ttl cache_path w = (Inl UnpicklingError, w))
       \<and> (fs w (cache_file cache_path f h) = Some (File t (Pickled state))
          \<and> unpack4 state = Inl e
          \<longrightarrow> cache_checking_call f args kwargs ttl cache_path w = (Inl e, w))"
proof (intro conjI impI)
  assume a: "fs w (cache_file cache_path f h) = Some (File t (Pickled state))
          \<and> unpack4 state = Inr (version, args_saved, kwargs_saved, retval)
          \<and> version \<noteq> PStr CACHE_VER
          \<and> parent_error w (cache_file cache_path f h) = None
          \<and> iter_values args = Some xs \<and> fn_body f xs kwargs = Inr r"
  then have "\<not> (version = PStr CACHE_VER \<and> fresh ttl (now w) t \<and> repr args_saved = repr args
            \<and> repr kwargs_saved = repr (kwargs_dict kwargs))" by simp
  with a assms(1) show "cache_checking_call f args kwargs ttl cache_path w
                = (Inr r, w\<lparr>calls := calls w @ [(fn_qualname f, xs, kwargs)],
                     fs := (fs w)(cache_file cache_path f h \<mapsto>
                       File (now w) (Pickled (PTuple [PStr CACHE_VER, args, kwargs_dict kwargs, r])))\<rparr>)"
    by (intro store_on_unusable) auto
next
  assume "fs w (cache_file cache_path f h) = Some (File t Garbage)"
  with assms show "cache_checking_call f args kwargs ttl cache_path w = (Inl UnpicklingError, w)"
    by (simp add: cache_checking_call_def load_file_def Let_def)
next
  assume "fs w (cache_file cache_path f h) = Some (File t (Pickled state)) \<and> unpack4 state = Inl e"
  with assms show "cache_checking_call f args kwargs ttl cache_path w = (Inl e, w)"
    by (simp add: cache_checking_call_def load_file_def Let_def)
qed

theorem corrupt_entry_witness:
  "cache_checking_call test_f args_10_20 kwargs_c_d None ''cache'' old_version_world
     = (Inr (PInt 320), warm_cache\<lparr>calls := [(''f'', [PInt 10, PInt 20], kwargs_c_d)]\<rparr>)
   \<and> cache_checking_call test_f args_10_20 kwargs_c_d (Some 1000) ''cache'' garbled_world
     = (Inl UnpicklingError, garbled_world)"
proof -
  have entry: "fs old_version_world (cache_file ''cache'' test_f ''5270d670cd06f7c9'')
      = Some (File 5 (Pickled (PTuple [PStr ''v00'', args_10_20, kwargs_dict kwargs_c_d, PInt 7])))"
    by (simp add: entry_path_test_f old_version_world_def)
  have dir: "parent_error old_version_world (cache_file ''cache'' test_f ''5270d670cd06f7c9'') = None"
    by (simp add: entry_path_test_f parent_error_def entry_dirname old_version_world_def)
  have mismatch: "PStr ''v00'' \<noteq> PStr CACHE_VER" by (simp add: CACHE_VER_def)
  have f1: "fresh None (now old_version_world) 5" by (simp add: fresh_def)
  have "cache_checking_call test_f args_10_20 kwargs_c_d None ''cache'' old_version_world
     = (Inr (PInt 320), warm_cache\<lparr>calls := [(''f'', [PInt 10, PInt 20], kwargs_c_d)]\<rparr>)"
    using corrupt_entry [OF key_10_20_c_d f1, of "''cache''" test_f
        "PTuple [PStr ''v00'', args_10_20, kwargs_dict kwargs_c_d, PInt 7]"
        "PStr ''v00''" args_10_20 "kwargs_dict kwargs_c_d" "PInt 7" "[PInt 10, PInt 20]" "PInt 320"]
      entry dir mismatch iter_args_10_20 test_f_320 unpack4_tuple
    unfolding entry_path_test_f
    by (simp add: old_version_world_def warm_cache_def CACHE_VER_def test_f_def)
  moreover
  have garbage: "fs garbled_world (cache_file ''cache'' test_f ''5270d670cd06f7c9'')
      = Some (File 5 Garbage)"
    by (simp add: entry_path_test_f garbled_world_def)
  have f2: "fresh (Some 1000) (now garbled_world) 5" by (simp add: fresh_def garbled_world_def)
  have "cache_checking_call test_f args_10_20 kwargs_c_d (Some 1000) ''cache'' garbled_world
     = (Inl UnpicklingError, garbled_world)"
    using corrupt_entry [OF key_10_20_c_d f2, of "''cache''" test_f] garbage by simp
  ultimately show ?thesis by simp
qed

text \<open>
  C7 as stated fails on an unreadable entry: the call ends in the load error, the
  callable is not invoked and the entry is not overwritten.
\<close>

theorem corrupt_entry_counterexample:
  "cache_checking_call test_f args_10_20 kwargs_c_d None ''cache'' garbled_world
     = (Inl UnpicklingError, garbled_world)
   \<and> calls garbled_world = []
   \<and> fs garbled_world ''cache/f.5270d670cd06f7c9.cache'' = Some (File 5 Garbage)"
  using key_10_20_c_d
  by (simp add: cache_checking_call_def load_file_def Let_def entry_path_test_f garbled_world_def
      fresh_def)

text \<open>
  C8. A wrapped object that is neither of a function type nor of a method type: once
  the cache directory is in place, the call ends in the assertion error, no invocation
  is recorded and the file system is as before, but for the cache directory the
  wrapper may have created. Where the directory cannot be set up, its error comes
  first and the world is untouched.
\<close>

theorem unsupported_callable:
  assumes "\<not> isinstance func function_types" and "\<not> isinstance func method_types"
  shows "(ensure_cache_dir cache_path w = Inr w1
          \<longrightarrow> reproducible_call ct cache_path ttl func args kwargs w = (Inl AssertionError, w1)
             \<and> calls w1 = calls w
             \<and> (\<forall>p. fs w1 p = fs w p \<or> (p = cache_path \<and> fs w p = None \<and> fs w1 p = Some (Dir (now w)))))
       \<and> (ensure_cache_dir cache_path w = Inl e
          \<longrightarrow> reproducible_call ct cache_path ttl func args kwargs w = (Inl e, w))"
  using assms
  by (auto simp add: reproducible_call_def ensure_cache_dir_def mkdir_def
      split: option.splits node.splits if_splits)

theorem unsupported_callable_witness:
  "reproducible_call no_classes ''cache'' None partial_obj [PInt 10, PInt 20] kwargs_c_d blank_world
     = (Inl AssertionError, blank_world\<lparr>fs := [''cache'' \<mapsto> Dir 100]\<rparr>)"
proof -
  have h1: "\<not> isinstance partial_obj function_types"
    by (simp add: isinstance_def partial_obj_def function_types_def types_FunctionType_def
        types_BuiltinFunctionType_def)
  have h2: "\<not> isinstance partial_obj method_types"
    by (simp add: isinstance_def partial_obj_def method_types_def types_MethodType_def
        types_BuiltinMethodType_def)
  have dir: "ensure_cache_dir ''cache'' blank_world = Inr (blank_world\<lparr>fs := [''cache'' \<mapsto> Dir 100]\<rparr>)"
    by (simp add: ensure_cache_dir_def mkdir_def parent_error_def dirname_def blank_world_def)
  from unsupported_callable [OF h1 h2, where cache_path = "''cache''" and w = blank_world
      and ?w1.0 = "blank_world\<lparr>fs := [''cache'' \<mapsto> Dir 100]\<rparr>" and ct = no_classes
      and ttl = None and args = "[PInt 10, PInt 20]" and kwargs = kwargs_c_d]
    dir
  show ?thesis by simp
qed




text \<open>
  C10. The canonical text is encoded as ASCII before anything else happens. When some
  positional argument or keyword value has a repr with a character outside ASCII, the
  engine, given the arguments as a tuple or as a list, ends in the encoding error with
  the world untouched: no lookup result, no invocation, no write. So does the wrapper,
  once the cache directory is in place and the callable is resolved. A call can
  therefore only succeed when every argument's repr is ASCII.
\<close>

theorem ascii_precondition:
  assumes "v \<in> set xs \<or> v \<in> snd ` set kwargs" and "\<not> is_ascii (repr v)"
  shows "cache_checking_call f (PTuple xs) kwargs ttl cache_path w = (Inl UnicodeEncodeError, w)
       \<and> cache_checking_call f (PList xs) kwargs ttl cache_path w = (Inl UnicodeEncodeError, w)
       \<and> (ensure_cache_dir cache_path w = Inr w1 \<and> isinstance func function_types
            \<longrightarrow> reproducible_call ct cache_path ttl func xs kwargs w = (Inl UnicodeEncodeError, w1))
       \<and> (ensure_cache_dir cache_path w = Inr w1 \<and> \<not> isinstance func function_types
            \<and> isinstance func method_types \<and> dunder_self func = Some receiver
            \<and> ct (class_of receiver) (dunder_name func) = Some unbound_f
            \<longrightarrow> reproducible_call ct cache_path ttl func xs kwargs w = (Inl UnicodeEncodeError, w1))"
proof -
  have tuple: "cache_key (PTuple xs) kwargs = Inl UnicodeEncodeError"
    using assms by (intro non_ascii_argument [of _ xs v]) auto
  have list: "cache_key (PList xs) kwargs = Inl UnicodeEncodeError"
    using assms by (intro non_ascii_argument [of _ xs v]) auto
  have bound: "cache_key (PList (receiver # xs)) kwargs = Inl UnicodeEncodeError"
    using assms by (intro non_ascii_argument [of _ "receiver # xs" v]) auto
  show ?thesis
    by (simp add: reproducible_call_def engine_encoding_error tuple list bound)
qed

theorem ascii_precondition_witness:
  "cache_checking_call test_f (PTuple [PInt 10, e_acute]) kwargs_c_d None ''cache'' empty_cache
     = (Inl UnicodeEncodeError, empty_cache)
   \<and> reproducible_call no_classes ''cache'' None (Function test_f) [PInt 10, e_acute] kwargs_c_d
        empty_cache
     = (Inl UnicodeEncodeError, empty_cache)"
proof -
  have h1: "e_acute \<in> set [PInt 10, e_acute] \<or> e_acute \<in> snd ` set kwargs_c_d" by simp
  have dir: "ensure_cache_dir ''cache'' empty_cache = Inr empty_cache"
    by (simp add: ensure_cache_dir_def empty_cache_def)
  have fn: "isinstance (Function test_f) function_types"
    by (simp add: isinstance_def function_types_def types_FunctionType_def)
  from ascii_precondition [OF h1 repr_e_acute, where f = test_f and ttl = None
      and cache_path = "''cache''" and w = empty_cache and ?w1.0 = empty_cache
      and func = "Function test_f" and ct = no_classes] dir fn
  show ?thesis by simp
qed

end
